theory Spec2Isabelle
  imports Main
begin

section \<open>The token manager of td\_authentication.py\<close>

text \<open>
  The class \<open>TDAuthentication\<close> keeps an OAuth token state in memory and talks to three
  collaborators: a browser session that yields an authorization code, the token endpoint
  and a pickle file in the working directory. The object is a record, the collaborators
  are a second record (the world), and every method takes both and returns its outcome
  with both: a method that raises keeps the assignments it made before raising.
\<close>

subsection \<open>Time\<close>

text \<open>
  A \<open>datetime\<close> is a number of microseconds, the resolution of Python's type;
  \<open>timedelta(seconds = n)\<close> and \<open>timedelta(days = n)\<close> are numbers of microseconds too.
\<close>

type_synonym datetime = int

definition timedelta_seconds :: "int \<Rightarrow> int" where
  "timedelta_seconds n = n * 1000000"

definition timedelta_days :: "int \<Rightarrow> int" where
  "timedelta_days n = n * 86400 * 1000000"

definition ACCESS_DURATION :: int where
  "ACCESS_DURATION = 1800"

definition REFRESH_DURATION :: int where
  "REFRESH_DURATION = 7776000"

subsection \<open>Outcomes\<close>

datatype py_error =
  TypeError | KeyError | JSONDecodeError | RequestException | WebDriverException

text \<open>
  A call returns a value, raises, or never returns (the browser poll of
  \<open>_get_access_code\<close> has no bound).
\<close>

datatype 'a result = Returns 'a | Raises py_error | Hangs

subsection \<open>The object\<close>

record config =
  client_id :: string
  redirect_uri :: string
  user :: string
  account_id :: string

text \<open>The dictionary \<open>_tokens\<close>: every entry starts as \<open>None\<close>.\<close>

record token_state =
  access_token :: "string option"
  access_expiration :: "datetime option"
  refresh_token :: "string option"
  refresh_expiration :: "datetime option"

record manager =
  td_config :: config
  store_refresh_token :: bool
  is_single_access :: bool
  tokens :: token_state
  logged_in_state :: bool

subsection \<open>The world\<close>

text \<open>
  A request posted to the token endpoint, and what comes back: a reply (status code, and
  the body as a JSON object of strings when it parses) after some time, or an exception
  of \<open>requests\<close> (the 5 second timeout, a refused connection).
\<close>

record http_request =
  req_url :: string
  req_headers :: "(string \<times> string) list"
  req_data :: "(string \<times> string option) list"

record http_reply =
  status_code :: int
  json :: "(string \<times> string) list option"

datatype http_outcome = Reply http_reply nat | PostFails

text \<open>
  One poll of the browser's current URL: either it has no \<open>code=\<close> part (the
  \<open>IndexError\<close> of \<open>split('code=')[1]\<close>), or the unquoted text after it. A session is
  the polls in order and the time it took; the driver may also fail, at its start or
  during a poll.
\<close>

datatype poll = NoCode | Code string

datatype browser_session = DriverError | Polls "poll list" nat

text \<open>
  \<open>files\<close> maps the name of a pickle file in the working directory to the pair it holds
  (\<open>./name\<close> and \<open>name\<close> are the same file). \<open>endpoint n\<close> answers the \<open>n\<close>-th request,
  \<open>browser n\<close> is the \<open>n\<close>-th session. The clock moves while the program waits for the
  browser or for the endpoint.
\<close>

record world =
  now :: datetime
  files :: "string \<rightharpoonup> (string option \<times> datetime option)"
  chromedriver :: bool
  browser :: "nat \<Rightarrow> browser_session"
  sessions :: nat
  endpoint :: "nat \<Rightarrow> http_outcome"
  posted :: "http_request list"

definition pickle_file :: "manager \<Rightarrow> string" where
  "pickle_file s = user (td_config s) @ ''refreshtoken.pickle''"

subsection \<open>\<open>__init__\<close>: the fresh object\<close>

definition new_manager :: "config \<Rightarrow> bool \<Rightarrow> bool \<Rightarrow> manager" where
  "new_manager cfg store single =
     \<lparr> td_config = cfg,
       store_refresh_token = store,
       is_single_access = single,
       tokens = \<lparr> access_token = None, access_expiration = None,
                  refresh_token = None, refresh_expiration = None \<rparr>,
       logged_in_state = False \<rparr>"

subsection \<open>\<open>_get_access_code\<close>\<close>

text \<open>
  The \<open>while True\<close> loop: a poll without a code or with an empty one goes round again;
  when no poll of the session ever shows a code the loop does not end (\<open>None\<close>).
\<close>

fun wait_for_code :: "poll list \<Rightarrow> string option" where
  "wait_for_code [] = None"
| "wait_for_code (NoCode # ps) = wait_for_code ps"
| "wait_for_code (Code c # ps) = (if c \<noteq> [] then Some c else wait_for_code ps)"

definition get_access_code :: "manager \<Rightarrow> world \<Rightarrow> string option result \<times> world" where
  "get_access_code s w =
     (if chromedriver w then
        (case browser w (sessions w) of
           DriverError \<Rightarrow> (Raises WebDriverException, w\<lparr>sessions := Suc (sessions w)\<rparr>)
         | Polls ps d \<Rightarrow>
             (case wait_for_code ps of
                None \<Rightarrow> (Hangs, w\<lparr>sessions := Suc (sessions w)\<rparr>)
              | Some c \<Rightarrow>
                  (Returns (Some c),
                   w\<lparr>sessions := Suc (sessions w), now := now w + int d\<rparr>)))
      else (Returns None, w))"

subsection \<open>The token endpoint\<close>

definition token_url :: string where
  "token_url = ''https://api.tdameritrade.com/v1/oauth2/token''"

definition form_headers :: "(string \<times> string) list" where
  "form_headers = [(''Content-Type'', ''application/x-www-form-urlencoded'')]"

definition requests_post :: "http_request \<Rightarrow> world \<Rightarrow> http_reply result \<times> world" where
  "requests_post rq w =
     (case endpoint w (length (posted w)) of
        PostFails \<Rightarrow> (Raises RequestException, w\<lparr>posted := posted w @ [rq]\<rparr>)
      | Reply rp d \<Rightarrow>
          (Returns rp, w\<lparr>posted := posted w @ [rq], now := now w + int d\<rparr>))"

definition grant_type :: "http_request \<Rightarrow> string option option" where
  "grant_type rq = map_of (req_data rq) ''grant_type''"

subsection \<open>\<open>_update_access_token\<close> and \<open>_update_refresh_token\<close>\<close>

definition update_access_token ::
  "manager \<Rightarrow> (string \<times> string) list \<Rightarrow> world \<Rightarrow> unit result \<times> manager" where
  "update_access_token s token_response w =
     (case map_of token_response ''access_token'' of
        None \<Rightarrow> (Raises KeyError, s)
      | Some a \<Rightarrow>
          (Returns (),
           s\<lparr>tokens := (tokens s)
                \<lparr>access_token := Some a,
                 access_expiration := Some (now w + timedelta_seconds ACCESS_DURATION)\<rparr>,
             logged_in_state := True\<rparr>))"

definition update_refresh_token ::
  "manager \<Rightarrow> (string \<times> string) list \<Rightarrow> world \<Rightarrow> unit result \<times> manager \<times> world" where
  "update_refresh_token s token_response w =
     (case map_of token_response ''refresh_token'' of
        None \<Rightarrow> (Raises KeyError, s, w)
      | Some r \<Rightarrow>
          (let s' = s\<lparr>tokens := (tokens s)
                       \<lparr>refresh_token := Some r,
                        refresh_expiration :=
                          Some (now w + timedelta_seconds REFRESH_DURATION)\<rparr>\<rparr>
           in if store_refresh_token s'
              then (Returns (), s',
                    w\<lparr>files := (files w)(pickle_file s' \<mapsto>
                         (refresh_token (tokens s'), refresh_expiration (tokens s')))\<rparr>)
              else (Returns (), s', w)))"

subsection \<open>\<open>_get_access_token\<close>\<close>

definition code_request :: "manager \<Rightarrow> string option \<Rightarrow> http_request" where
  "code_request s access_code =
     \<lparr> req_url = token_url,
       req_headers = form_headers,
       req_data =
         [(''grant_type'', Some ''authorization_code''),
          (''access_type'', if \<not> is_single_access s then Some ''offline'' else None),
          (''code'', access_code),
          (''client_id'', Some (client_id (td_config s))),
          (''redirect_uri'', Some (redirect_uri (td_config s)))] \<rparr>"

text \<open>What a reply with status 200 does to the object: the body of the \<open>if\<close>.\<close>

definition accept_tokens ::
  "manager \<Rightarrow> http_reply \<Rightarrow> world \<Rightarrow> unit result \<times> manager \<times> world" where
  "accept_tokens s rp w =
     (case json rp of
        None \<Rightarrow> (Raises JSONDecodeError, s, w)
      | Some token_response \<Rightarrow>
          (if \<not> is_single_access s then
             (case update_refresh_token s token_response w of
                (Returns u, s1, w1) \<Rightarrow>
                  (case update_access_token s1 token_response w1 of
                     (r, s2) \<Rightarrow> (r, s2, w1))
              | (Raises e, s1, w1) \<Rightarrow> (Raises e, s1, w1)
              | (Hangs, s1, w1) \<Rightarrow> (Hangs, s1, w1))
           else
             (case update_access_token s token_response w of
                (r, s2) \<Rightarrow> (r, s2, w))))"

text \<open>The \<open>for\<close> loop over \<open>range(max_retries)\<close>, by the number of rounds left.\<close>

fun get_access_token_retries ::
  "nat \<Rightarrow> manager \<Rightarrow> world \<Rightarrow> unit result \<times> manager \<times> world" where
  "get_access_token_retries 0 s w = (Returns (), s, w)"
| "get_access_token_retries (Suc n) s w =
     (case get_access_code s w of
        (Raises e, w1) \<Rightarrow> (Raises e, s, w1)
      | (Hangs, w1) \<Rightarrow> (Hangs, s, w1)
      | (Returns access_code, w1) \<Rightarrow>
          (case requests_post (code_request s access_code) w1 of
             (Raises e, w2) \<Rightarrow> (Raises e, s, w2)
           | (Hangs, w2) \<Rightarrow> (Hangs, s, w2)
           | (Returns auth_reply, w2) \<Rightarrow>
               (if status_code auth_reply = 200 then accept_tokens s auth_reply w2
                else get_access_token_retries n (s\<lparr>logged_in_state := False\<rparr>) w2)))"

definition get_access_token :: "manager \<Rightarrow> world \<Rightarrow> unit result \<times> manager \<times> world" where
  "get_access_token s w = get_access_token_retries 3 s w"

subsection \<open>\<open>_request_refresh_token\<close> and \<open>_refresh_access_token\<close>\<close>

definition refresh_request :: "manager \<Rightarrow> http_request" where
  "refresh_request s =
     \<lparr> req_url = token_url,
       req_headers = form_headers,
       req_data =
         [(''grant_type'', Some ''refresh_token''),
          (''refresh_token'', refresh_token (tokens s)),
          (''client_id'', Some (client_id (td_config s)))] \<rparr>"

definition request_refresh_token :: "manager \<Rightarrow> world \<Rightarrow> http_reply result \<times> world" where
  "request_refresh_token s w = requests_post (refresh_request s) w"

text \<open>
  \<open>stamp - delta < now\<close> on an entry of \<open>_tokens\<close>: subtracting from \<open>None\<close> is a
  \<open>TypeError\<close>, here \<open>None\<close>.
\<close>

definition minus_before :: "datetime option \<Rightarrow> int \<Rightarrow> datetime \<Rightarrow> bool option" where
  "minus_before stamp delta t =
     (case stamp of None \<Rightarrow> None | Some e \<Rightarrow> Some (e - delta < t))"

definition refresh_access_token :: "manager \<Rightarrow> world \<Rightarrow> unit result \<times> manager \<times> world" where
  "refresh_access_token s w =
     (case minus_before (refresh_expiration (tokens s)) (timedelta_days 1) (now w) of
        None \<Rightarrow> (Raises TypeError, s, w)
      | Some True \<Rightarrow> get_access_token s w
      | Some False \<Rightarrow>
          (case request_refresh_token s w of
             (Raises e, w1) \<Rightarrow> (Raises e, s, w1)
           | (Hangs, w1) \<Rightarrow> (Hangs, s, w1)
           | (Returns refresh_response, w1) \<Rightarrow>
               (if status_code refresh_response \<noteq> 200
                then get_access_token (s\<lparr>logged_in_state := False\<rparr>) w1
                else
                  (case json refresh_response of
                     None \<Rightarrow> (Raises JSONDecodeError, s, w1)
                   | Some token_response \<Rightarrow>
                       (case update_access_token s token_response w1 of
                          (r, s1) \<Rightarrow> (r, s1, w1))))))"

subsection \<open>\<open>_initialize_authentication\<close> and the constructor\<close>

definition initialize_authentication ::
  "manager \<Rightarrow> world \<Rightarrow> unit result \<times> manager \<times> world" where
  "initialize_authentication s w =
     (case files w (pickle_file s) of
        Some (rt, rexp) \<Rightarrow>
          (if \<not> store_refresh_token s \<or> is_single_access s
           then get_access_token s (w\<lparr>files := (files w)(pickle_file s := None)\<rparr>)
           else refresh_access_token
                  (s\<lparr>tokens := (tokens s)\<lparr>refresh_token := rt,
                                         refresh_expiration := rexp\<rparr>\<rparr>) w)
      | None \<Rightarrow> get_access_token s w)"

definition init ::
  "config \<Rightarrow> bool \<Rightarrow> bool \<Rightarrow> world \<Rightarrow> unit result \<times> manager \<times> world" where
  "init cfg store single w = initialize_authentication (new_manager cfg store single) w"

subsection \<open>\<open>_authenticate\<close>\<close>

text \<open>
  \<open>if single and (exp - 30s < now): ... elif exp - 5s < now: ...\<close>; the \<open>and\<close> does not
  look at the expiration when the mode is normal.
\<close>

definition authenticate :: "manager \<Rightarrow> world \<Rightarrow> unit result \<times> manager \<times> world" where
  "authenticate s w =
     (case (if is_single_access s
            then minus_before (access_expiration (tokens s)) (timedelta_seconds 30) (now w)
            else Some False) of
        None \<Rightarrow> (Raises TypeError, s, w)
      | Some True \<Rightarrow> get_access_token s w
      | Some False \<Rightarrow>
          (case minus_before (access_expiration (tokens s)) (timedelta_seconds 5) (now w) of
             None \<Rightarrow> (Raises TypeError, s, w)
           | Some True \<Rightarrow> refresh_access_token s w
           | Some False \<Rightarrow> (Returns (), s, w)))"

subsection \<open>\<open>headers\<close>, \<open>access_token\<close> and \<open>__repr__\<close>\<close>

definition api_base :: string where
  "api_base = ''https://api.tdameritrade.com/v1/''"

definition lstrip :: "char \<Rightarrow> string \<Rightarrow> string" where
  "lstrip c s = dropWhile (\<lambda>x. x = c) s"

text \<open>\<open>str\<close> of an entry of \<open>_tokens\<close>, as the f-string formats it.\<close>

definition py_str :: "string option \<Rightarrow> string" where
  "py_str v = (case v of None \<Rightarrow> ''None'' | Some x \<Rightarrow> x)"

text \<open>
  \<open>urlparse(...).scheme\<close> and \<open>urljoin\<close> belong to the standard library: \<open>headers\<close>
  takes them as \<open>scheme_of\<close> and \<open>urljoin\<close>.
\<close>

definition resolve_url ::
  "(string \<Rightarrow> string) \<Rightarrow> (string \<Rightarrow> string \<Rightarrow> string) \<Rightarrow> string \<Rightarrow> string" where
  "resolve_url scheme_of urljoin ep =
     (if scheme_of ep \<in> set [''http'', ''https''] then ep
      else urljoin api_base (lstrip (CHR ''/'') ep))"

definition merged_headers :: "manager \<Rightarrow> string option \<Rightarrow> (string \<times> string) list" where
  "merged_headers s mode =
     (let hs = [(''Authorization'', ''Bearer '' @ py_str (access_token (tokens s)))]
      in if mode = Some ''application/json''
         then hs @ [(''Content-type'', ''application/json'')]
         else hs)"

definition headers ::
  "(string \<Rightarrow> string) \<Rightarrow> (string \<Rightarrow> string \<Rightarrow> string) \<Rightarrow> manager \<Rightarrow> world \<Rightarrow>
     string \<Rightarrow> string option \<Rightarrow>
     (string option \<times> (string \<times> string) list option) result \<times> manager \<times> world" where
  "headers scheme_of urljoin s w ep mode =
     (case authenticate s w of
        (Raises e, s1, w1) \<Rightarrow> (Raises e, s1, w1)
      | (Hangs, s1, w1) \<Rightarrow> (Hangs, s1, w1)
      | (Returns u, s1, w1) \<Rightarrow>
          (if logged_in_state s1
           then (Returns (Some (resolve_url scheme_of urljoin ep),
                          Some (merged_headers s1 mode)), s1, w1)
           else (Returns (None, None), s1, w1)))"

text \<open>The property returns the entry of \<open>_tokens\<close> or the value \<open>False\<close>.\<close>

datatype token_or_false = Token "string option" | PyFalse

definition access_token_property ::
  "manager \<Rightarrow> world \<Rightarrow> token_or_false result \<times> manager \<times> world" where
  "access_token_property s w =
     (case authenticate s w of
        (Raises e, s1, w1) \<Rightarrow> (Raises e, s1, w1)
      | (Hangs, s1, w1) \<Rightarrow> (Hangs, s1, w1)
      | (Returns u, s1, w1) \<Rightarrow>
          (if logged_in_state s1 then (Returns (Token (access_token (tokens s1))), s1, w1)
           else (Returns PyFalse, s1, w1)))"

definition str_bool :: "bool \<Rightarrow> string" where
  "str_bool b = (if b then ''True'' else ''False'')"

text \<open>\<open>__repr__\<close>: \<open>None < datetime.now()\<close> is a \<open>TypeError\<close>.\<close>

definition repr :: "manager \<Rightarrow> world \<Rightarrow> string result \<times> manager \<times> world" where
  "repr s w =
     (case access_expiration (tokens s) of
        None \<Rightarrow> (Raises TypeError, s, w)
      | Some e \<Rightarrow>
          (let s1 = (if e < now w then s\<lparr>logged_in_state := False\<rparr> else s)
           in (Returns (str_bool (logged_in_state s1)), s1, w)))"

subsection \<open>Callers\<close>

text \<open>
  What a caller can do with the object once it is built: ask for headers, read the
  property, print the object, or let some time pass before the next call. After an
  exception the caller may go on; after a call that never returns there is no next call.
\<close>

datatype call = CallHeaders string "string option" | CallAccessToken | CallRepr | Wait nat

definition run_call ::
  "(string \<Rightarrow> string) \<Rightarrow> (string \<Rightarrow> string \<Rightarrow> string) \<Rightarrow> call \<Rightarrow> manager \<Rightarrow> world \<Rightarrow>
     bool \<times> manager \<times> world" where
  "run_call scheme_of urljoin c s w =
     (case c of
        CallHeaders ep mode \<Rightarrow>
          (case headers scheme_of urljoin s w ep mode of (r, s1, w1) \<Rightarrow> (r = Hangs, s1, w1))
      | CallAccessToken \<Rightarrow>
          (case access_token_property s w of (r, s1, w1) \<Rightarrow> (r = Hangs, s1, w1))
      | CallRepr \<Rightarrow>
          (case repr s w of (r, s1, w1) \<Rightarrow> (r = Hangs, s1, w1))
      | Wait d \<Rightarrow> (False, s, w\<lparr>now := now w + int d\<rparr>))"

fun run_calls ::
  "(string \<Rightarrow> string) \<Rightarrow> (string \<Rightarrow> string \<Rightarrow> string) \<Rightarrow> call list \<Rightarrow> manager \<Rightarrow> world \<Rightarrow>
     manager \<times> world" where
  "run_calls scheme_of urljoin [] s w = (s, w)"
| "run_calls scheme_of urljoin (c # cs) s w =
     (case run_call scheme_of urljoin c s w of
        (hung, s1, w1) \<Rightarrow> if hung then (s1, w1) else run_calls scheme_of urljoin cs s1 w1)"

text \<open>The requests a run has added to the trace of the endpoint.\<close>

definition new_posts :: "world \<Rightarrow> world \<Rightarrow> http_request list" where
  "new_posts w w' = drop (length (posted w)) (posted w')"

text \<open>
  The \<open>i\<close>-th coming attempt is turned down: the browser step returns (there is no driver,
  or the session shows a code) and the endpoint answers with a status other than 200.
\<close>

definition code_arrives :: "world \<Rightarrow> nat \<Rightarrow> bool" where
  "code_arrives w i =
     (if chromedriver w
      then (case browser w (sessions w + i) of
              DriverError \<Rightarrow> False
            | Polls ps d \<Rightarrow> wait_for_code ps \<noteq> None)
      else True)"

definition rejects :: "world \<Rightarrow> nat \<Rightarrow> bool" where
  "rejects w i =
     (case endpoint w (length (posted w) + i) of
        PostFails \<Rightarrow> False
      | Reply rp d \<Rightarrow> status_code rp \<noteq> 200)"


text \<open>
  From one world to a later one, the trace of the endpoint has only grown, and only by
  authorization-code grants.
\<close>

definition code_grants_only :: "world \<Rightarrow> world \<Rightarrow> bool" where
  "code_grants_only w w1 =
     (take (length (posted w)) (posted w1) = posted w \<and>
      length (posted w) \<le> length (posted w1) \<and>
      list_all (\<lambda>rq. grant_type rq = Some (Some ''authorization_code'')) (new_posts w w1))"


subsection \<open>The library functions on plain paths\<close>

text \<open>
  \<open>urlparse(url).scheme\<close> and \<open>urljoin(base, url)\<close> of \<open>urllib.parse\<close>, for a base
  \<open>scheme://host/path\<close> and a reference that is a path only (no scheme, host, parameters,
  query or fragment, no blanks or control characters): the examples below run on them.
\<close>

fun split_on :: "char \<Rightarrow> string \<Rightarrow> string list" where
  "split_on c [] = [[]]"
| "split_on c (x # xs) =
     (if x = c then [] # split_on c xs
      else (case split_on c xs of [] \<Rightarrow> [[x]] | p # ps \<Rightarrow> (x # p) # ps))"

fun join_with :: "string \<Rightarrow> string list \<Rightarrow> string" where
  "join_with sep [] = []"
| "join_with sep [p] = p"
| "join_with sep (p # q # ps) = p @ sep @ join_with sep (q # ps)"

definition is_alpha :: "char \<Rightarrow> bool" where
  "is_alpha c = (let n = (of_char c :: nat) in (65 \<le> n \<and> n \<le> 90) \<or> (97 \<le> n \<and> n \<le> 122))"

definition scheme_char :: "char \<Rightarrow> bool" where
  "scheme_char c =
     (let n = (of_char c :: nat)
      in is_alpha c \<or> (48 \<le> n \<and> n \<le> 57) \<or> c = CHR ''+'' \<or> c = CHR ''-'' \<or> c = CHR ''.'')"

definition lower :: "char \<Rightarrow> char" where
  "lower c = (let n = (of_char c :: nat) in if 65 \<le> n \<and> n \<le> 90 then char_of (n + 32) else c)"

definition py_scheme :: "string \<Rightarrow> string" where
  "py_scheme url =
     (let front = takeWhile (\<lambda>c. c \<noteq> CHR '':'') url
      in if length front < length url \<and> front \<noteq> [] \<and> is_alpha (hd front) \<and>
            list_all scheme_char front
         then map lower front else [])"

text \<open>The base cut into \<open>scheme://host\<close> and its path.\<close>

definition split_origin :: "string \<Rightarrow> string \<times> string" where
  "split_origin base =
     (let front = takeWhile (\<lambda>c. c \<noteq> CHR '':'') base;
          rest = drop (length front + 3) base;
          host = takeWhile (\<lambda>c. c \<noteq> CHR ''/'') rest
      in (front @ ''://'' @ host, drop (length host) rest))"

text \<open>\<open>segments[1:-1] = filter(None, segments[1:-1])\<close>\<close>

definition squeeze :: "string list \<Rightarrow> string list" where
  "squeeze segs =
     (case segs of
        [] \<Rightarrow> []
      | [p] \<Rightarrow> [p]
      | p # ps \<Rightarrow> p # filter (\<lambda>q. q \<noteq> []) (butlast ps) @ [last ps])"

definition resolve_segment :: "string list \<Rightarrow> string \<Rightarrow> string list" where
  "resolve_segment acc seg =
     (if seg = ''..'' then butlast acc else if seg = ''.'' then acc else acc @ [seg])"

definition py_urljoin :: "string \<Rightarrow> string \<Rightarrow> string" where
  "py_urljoin base url =
     (if url = [] then base
      else
        (let (origin, bpath) = split_origin base;
             bp = split_on (CHR ''/'') bpath;
             base_parts = (if last bp \<noteq> [] then butlast bp else bp);
             segments = (if take 1 url = ''/'' then split_on (CHR ''/'') url
                         else squeeze (base_parts @ split_on (CHR ''/'') url));
             resolved = foldl resolve_segment [] segments;
             resolved' = (if last segments = ''.'' \<or> last segments = ''..''
                          then resolved @ [[]] else resolved);
             path = join_with ''/'' resolved'
         in origin @ (if path = [] then ''/'' else path)))"

subsection \<open>Example inputs\<close>

definition example_config :: config where
  "example_config =
     \<lparr> client_id = ''CID'', redirect_uri = ''http://localhost'',
       user = ''alice'', account_id = ''42'' \<rparr>"

text \<open>No driver on disk, and an endpoint that answers 500 to everything.\<close>

definition rejecting_world :: world where
  "rejecting_world =
     \<lparr> now = 0, files = Map.empty, chromedriver = False,
       browser = (\<lambda>n. DriverError), sessions = 0,
       endpoint = (\<lambda>n. Reply \<lparr> status_code = 500, json = None \<rparr> 0),
       posted = [] \<rparr>"

text \<open>
  A browser that reaches the redirect at its third poll, and an endpoint that answers
  every request after one second with the tokens \<open>A\<close> and \<open>R\<close>.
\<close>

definition accepting_world :: world where
  "accepting_world =
     \<lparr> now = 5000000, files = Map.empty, chromedriver = True,
       browser = (\<lambda>n. Polls [NoCode, Code [], Code ''xyz''] 4000000), sessions = 0,
       endpoint = (\<lambda>n. Reply \<lparr> status_code = 200,
                    json = Some [(''access_token'', ''A''), (''refresh_token'', ''R'')] \<rparr>
                    1000000),
       posted = [] \<rparr>"

text \<open>An object that logged in long ago: its access token ends at second 20.\<close>

definition expiring :: "bool \<Rightarrow> manager" where
  "expiring single = (new_manager example_config False single)
     \<lparr>tokens := \<lparr> access_token = Some ''old'', access_expiration = Some 20000000,
                  refresh_token = None, refresh_expiration = None \<rparr>,
      logged_in_state := True\<rparr>"

text \<open>
  An object in normal mode that holds the refresh token \<open>R0\<close>, good until the given
  moment.
\<close>

definition holding :: "datetime \<Rightarrow> manager" where
  "holding rexp = (new_manager example_config True False)
     \<lparr>tokens := \<lparr> access_token = Some ''old'', access_expiration = Some 20000000,
                  refresh_token = Some ''R0'', refresh_expiration = Some rexp \<rparr>,
      logged_in_state := True\<rparr>"

text \<open>
  The object and the world after a construction in \<open>accepting_world\<close>: one browser
  session (4 seconds), one request (1 second), both tokens stored and the pair on disk.
\<close>

definition logged_in :: "bool \<Rightarrow> manager" where
  "logged_in single =
     (new_manager example_config True single)
       \<lparr>tokens := \<lparr> access_token = Some ''A'', access_expiration = Some 1810000000,
                    refresh_token = (if single then None else Some ''R''),
                    refresh_expiration = (if single then None else Some 7776010000000) \<rparr>,
        logged_in_state := True\<rparr>"

definition after_login :: "bool \<Rightarrow> world" where
  "after_login single =
     accepting_world
       \<lparr>now := 10000000, sessions := 1,
        files := (if single then Map.empty
                  else [''alicerefreshtoken.pickle'' \<mapsto> (Some ''R'', Some 7776010000000)]),
        posted := [code_request (new_manager example_config True single) (Some ''xyz'')]\<rparr>"

section \<open>Evaluation\<close>

lemmas run_defs =
  init_def initialize_authentication_def new_manager_def pickle_file_def
  get_access_token_def get_access_code_def requests_post_def code_request_def
  accept_tokens_def update_access_token_def update_refresh_token_def
  refresh_access_token_def request_refresh_token_def refresh_request_def minus_before_def
  authenticate_def timedelta_seconds_def timedelta_days_def ACCESS_DURATION_def
  REFRESH_DURATION_def token_url_def form_headers_def numeral_3_eq_3

lemma init_rejected:
  "init example_config True False rejecting_world =
     (Returns (),
      new_manager example_config True False,
      rejecting_world\<lparr>posted := replicate 3 (code_request
         (new_manager example_config True False) None)\<rparr>)"
  by (simp add: run_defs example_config_def rejecting_world_def)

lemma init_accepted:
  "init example_config True single accepting_world =
     (Returns (), logged_in single, after_login single)"
  by (cases single)
     (simp_all add: run_defs example_config_def accepting_world_def logged_in_def
        after_login_def)

section \<open>What each step leaves alone\<close>

lemma get_access_code_frame:
  "get_access_code s w = (r, w1) \<Longrightarrow>
     files w1 = files w \<and> posted w1 = posted w \<and> endpoint w1 = endpoint w \<and>
     browser w1 = browser w \<and> chromedriver w1 = chromedriver w"
  by (auto simp: get_access_code_def split: if_splits browser_session.splits option.splits)

lemma get_access_code_sessions:
  "get_access_code s w = (Returns c, w1) \<Longrightarrow>
     sessions w1 = (if chromedriver w then Suc (sessions w) else sessions w)"
  by (auto simp: get_access_code_def split: if_splits browser_session.splits option.splits)

lemma requests_post_frame:
  "requests_post rq w = (r, w1) \<Longrightarrow>
     files w1 = files w \<and> posted w1 = posted w @ [rq] \<and> endpoint w1 = endpoint w \<and>
     browser w1 = browser w \<and> chromedriver w1 = chromedriver w \<and> sessions w1 = sessions w"
  by (auto simp: requests_post_def split: http_outcome.splits)

lemma requests_post_never_hangs: "requests_post rq w \<noteq> (Hangs, w1)"
  by (auto simp: requests_post_def split: http_outcome.splits)

lemma update_access_token_frame:
  "update_access_token s tr w = (r, s1) \<Longrightarrow>
     td_config s1 = td_config s \<and> store_refresh_token s1 = store_refresh_token s \<and>
     is_single_access s1 = is_single_access s \<and>
     refresh_token (tokens s1) = refresh_token (tokens s) \<and>
     refresh_expiration (tokens s1) = refresh_expiration (tokens s)"
  by (auto simp: update_access_token_def split: option.splits)


lemma update_refresh_token_frame:
  "update_refresh_token s tr w = (r, s1, w1) \<Longrightarrow>
     td_config s1 = td_config s \<and> store_refresh_token s1 = store_refresh_token s \<and>
     is_single_access s1 = is_single_access s \<and>
     access_token (tokens s1) = access_token (tokens s) \<and>
     access_expiration (tokens s1) = access_expiration (tokens s) \<and>
     logged_in_state s1 = logged_in_state s \<and>
     now w1 = now w \<and> posted w1 = posted w \<and> endpoint w1 = endpoint w \<and>
     browser w1 = browser w \<and> chromedriver w1 = chromedriver w \<and> sessions w1 = sessions w"
  by (auto simp: update_refresh_token_def Let_def split: option.splits if_splits)

lemma update_refresh_token_stamp:
  "update_refresh_token s tr w = (r, s1, w1) \<Longrightarrow>
     refresh_expiration (tokens s1) = refresh_expiration (tokens s) \<or>
     refresh_expiration (tokens s1) = Some (now w + timedelta_seconds REFRESH_DURATION)"
  by (auto simp: update_refresh_token_def Let_def split: option.splits if_splits)

lemma accept_tokens_frame:
  "accept_tokens s rp w = (r, s1, w1) \<Longrightarrow>
     td_config s1 = td_config s \<and> store_refresh_token s1 = store_refresh_token s \<and>
     is_single_access s1 = is_single_access s \<and>
     now w1 = now w \<and> posted w1 = posted w \<and> endpoint w1 = endpoint w \<and>
     browser w1 = browser w \<and> chromedriver w1 = chromedriver w \<and> sessions w1 = sessions w"
  by (auto simp: accept_tokens_def split: option.splits if_splits prod.splits result.splits
           dest!: update_refresh_token_frame update_access_token_frame)

lemma accept_tokens_single:
  "is_single_access s \<Longrightarrow> accept_tokens s rp w = (r, s1, w1) \<Longrightarrow>
     w1 = w \<and> refresh_token (tokens s1) = refresh_token (tokens s) \<and>
     refresh_expiration (tokens s1) = refresh_expiration (tokens s)"
  by (auto simp: accept_tokens_def split: option.splits prod.splits
           dest!: update_access_token_frame)


lemma retries_Suc_cases:
  assumes "get_access_token_retries (Suc n) s w = (r, s1, w1)"
  obtains
    (code_fails) r' where "get_access_code s w = (r', w1)" "s1 = s"
      "\<And>c. r' \<noteq> Returns c" "r \<noteq> Returns ()"
  | (post_fails) c wa e where "get_access_code s w = (Returns c, wa)"
      "requests_post (code_request s c) wa = (Raises e, w1)" "s1 = s" "r = Raises e"
  | (accepted) c wa rp wb where "get_access_code s w = (Returns c, wa)"
      "requests_post (code_request s c) wa = (Returns rp, wb)" "status_code rp = 200"
      "accept_tokens s rp wb = (r, s1, w1)"
  | (rejected) c wa rp wb where "get_access_code s w = (Returns c, wa)"
      "requests_post (code_request s c) wa = (Returns rp, wb)" "status_code rp \<noteq> 200"
      "get_access_token_retries n (s\<lparr>logged_in_state := False\<rparr>) wb = (r, s1, w1)"
proof (cases "get_access_code s w")
  case (Pair r' wa)
  show ?thesis
  proof (cases r')
    case (Returns c)
    obtain r2 wb where post: "requests_post (code_request s c) wa = (r2, wb)"
      by (cases "requests_post (code_request s c) wa")
    show ?thesis
    proof (cases r2)
      case (Returns rp)
      with assms Pair \<open>r' = Returns c\<close> post show ?thesis
        by (cases "status_code rp = 200") (auto intro: accepted rejected)
    next
      case (Raises e)
      with assms Pair \<open>r' = Returns c\<close> post show ?thesis
        by (auto intro: post_fails)
    next
      case Hangs
      with post show ?thesis by (simp add: requests_post_never_hangs)
    qed
  next
    case (Raises e)
    with assms Pair show ?thesis by (auto intro: code_fails)
  next
    case Hangs
    with assms Pair show ?thesis by (auto intro: code_fails)
  qed
qed

lemma code_request_grant:
  "grant_type (code_request s c) = Some (Some ''authorization_code'')"
  by (simp add: grant_type_def code_request_def)

lemma retries_posted:
  "get_access_token_retries n s w = (r, s1, w1) \<Longrightarrow>
     \<exists>ps. posted w1 = posted w @ ps \<and> length ps \<le> n \<and>
          (\<forall>rq \<in> set ps. grant_type rq = Some (Some ''authorization_code''))"
proof (induction n arbitrary: s w)
  case 0
  then show ?case by simp
next
  case (Suc n)
  from Suc.prems show ?case
  proof (cases rule: retries_Suc_cases)
    case (code_fails r')
    then show ?thesis using get_access_code_frame [OF code_fails(1)] by simp
  next
    case (post_fails c wa e)
    have "posted w1 = posted w @ [code_request s c]"
      using get_access_code_frame [OF post_fails(1)] requests_post_frame [OF post_fails(2)]
      by simp
    then show ?thesis by (auto simp: code_request_grant)
  next
    case (accepted c wa rp wb)
    have "posted w1 = posted w @ [code_request s c]"
      using get_access_code_frame [OF accepted(1)] requests_post_frame [OF accepted(2)]
        accept_tokens_frame [OF accepted(4)]
      by simp
    then show ?thesis by (auto simp: code_request_grant)
  next
    case (rejected c wa rp wb)
    from Suc.IH [OF rejected(4)] obtain ps where ps: "posted w1 = posted wb @ ps"
      "length ps \<le> n" "\<forall>rq \<in> set ps. grant_type rq = Some (Some ''authorization_code'')"
      by blast
    have "posted wb = posted w @ [code_request s c]"
      using get_access_code_frame [OF rejected(1)] requests_post_frame [OF rejected(2)]
      by simp
    with ps have "posted w1 = posted w @ (code_request s c # ps)" by simp
    moreover have "length (code_request s c # ps) \<le> Suc n" using ps by simp
    moreover have "\<forall>rq \<in> set (code_request s c # ps).
        grant_type rq = Some (Some ''authorization_code'')"
      using ps by (simp add: code_request_grant)
    ultimately show ?thesis by blast
  qed
qed

lemma get_access_token_posts:
  assumes "get_access_token s w = (r, s1, w1)"
  shows "posted w1 = posted w @ new_posts w w1"
    and "length (new_posts w w1) \<le> 3"
    and "\<forall>rq \<in> set (new_posts w w1). grant_type rq = Some (Some ''authorization_code'')"
proof -
  from assms obtain ps where ps: "posted w1 = posted w @ ps" "length ps \<le> 3"
    "\<forall>rq \<in> set ps. grant_type rq = Some (Some ''authorization_code'')"
    unfolding get_access_token_def by (blast dest: retries_posted)
  then have "new_posts w w1 = ps" by (simp add: new_posts_def)
  with ps show "posted w1 = posted w @ new_posts w w1" "length (new_posts w w1) \<le> 3"
    "\<forall>rq \<in> set (new_posts w w1). grant_type rq = Some (Some ''authorization_code'')"
    by simp_all
qed

lemma new_posts_self: "new_posts w w = []"
  by (simp add: new_posts_def)

lemma attempt_rejected:
  assumes "code_arrives w 0" and "rejects w 0"
  shows "\<exists>c wa rp wb. get_access_code s w = (Returns c, wa) \<and>
     requests_post (code_request s c) wa = (Returns rp, wb) \<and> status_code rp \<noteq> 200 \<and>
     files wb = files w \<and> length (posted wb) = Suc (length (posted w)) \<and>
     (\<forall>i. code_arrives wb i = code_arrives w (Suc i)) \<and>
     (\<forall>i. rejects wb i = rejects w (Suc i))"
  using assms
  by (auto simp: code_arrives_def rejects_def get_access_code_def requests_post_def
           split: browser_session.splits option.splits http_outcome.splits if_splits)

lemma retries_all_rejected:
  "(\<And>i. i < n \<Longrightarrow> code_arrives w i \<and> rejects w i) \<Longrightarrow>
     \<exists>w1. get_access_token_retries n s w =
            (Returns (), (if n = 0 then s else s\<lparr>logged_in_state := False\<rparr>), w1) \<and>
          files w1 = files w \<and> length (posted w1) = length (posted w) + n"
proof (induction n arbitrary: s w)
  case 0
  then show ?case by simp
next
  case (Suc n)
  from Suc.prems [of 0] have "code_arrives w 0" "rejects w 0" by simp_all
  from attempt_rejected [OF this, where s = s] obtain c wa rp wb where
    step: "get_access_code s w = (Returns c, wa)"
      "requests_post (code_request s c) wa = (Returns rp, wb)" "status_code rp \<noteq> 200"
    and frame: "files wb = files w" "length (posted wb) = Suc (length (posted w))"
    and shift: "\<And>i. code_arrives wb i = code_arrives w (Suc i)"
      "\<And>i. rejects wb i = rejects w (Suc i)"
    by blast
  have "\<And>i. i < n \<Longrightarrow> code_arrives wb i \<and> rejects wb i"
    using Suc.prems shift by simp
  from Suc.IH [OF this, where s = "s\<lparr>logged_in_state := False\<rparr>"] obtain w1 where
    rest: "get_access_token_retries n (s\<lparr>logged_in_state := False\<rparr>) wb =
        (Returns (), (if n = 0 then s\<lparr>logged_in_state := False\<rparr>
                      else s\<lparr>logged_in_state := False, logged_in_state := False\<rparr>), w1)"
      "files w1 = files wb" "length (posted w1) = length (posted wb) + n"
    by blast
  have "get_access_token_retries (Suc n) s w =
      get_access_token_retries n (s\<lparr>logged_in_state := False\<rparr>) wb"
    using step by simp
  with rest frame show ?case by (cases "n = 0") simp_all
qed





subsection \<open>The ways through each method\<close>





lemma retries_keeps:
  "get_access_token_retries n s w = (r, s1, w1) \<Longrightarrow>
     td_config s1 = td_config s \<and> store_refresh_token s1 = store_refresh_token s \<and>
     is_single_access s1 = is_single_access s"
proof (induction n arbitrary: s w)
  case 0
  then show ?case by simp
next
  case (Suc n)
  from Suc.prems show ?case
  proof (cases rule: retries_Suc_cases)
    case (accepted c wa rp wb)
    then show ?thesis using accept_tokens_frame [OF accepted(4)] by simp
  next
    case (rejected c wa rp wb)
    from Suc.IH [OF rejected(4)] show ?thesis by simp
  qed simp_all
qed

lemma retries_single:
  "is_single_access s \<Longrightarrow> get_access_token_retries n s w = (r, s1, w1) \<Longrightarrow>
     files w1 = files w \<and> refresh_token (tokens s1) = refresh_token (tokens s) \<and>
     refresh_expiration (tokens s1) = refresh_expiration (tokens s)"
proof (induction n arbitrary: s w)
  case 0
  then show ?case by simp
next
  case (Suc n)
  from Suc.prems(2) show ?case
  proof (cases rule: retries_Suc_cases)
    case (code_fails r')
    then show ?thesis using get_access_code_frame [OF code_fails(1)] by simp
  next
    case (post_fails c wa e)
    then show ?thesis
      using get_access_code_frame [OF post_fails(1)] requests_post_frame [OF post_fails(2)]
      by simp
  next
    case (accepted c wa rp wb)
    then show ?thesis
      using get_access_code_frame [OF accepted(1)] requests_post_frame [OF accepted(2)]
        accept_tokens_single [OF Suc.prems(1) accepted(4)]
      by simp
  next
    case (rejected c wa rp wb)
    have "is_single_access (s\<lparr>logged_in_state := False\<rparr>)" using Suc.prems(1) by simp
    from Suc.IH [OF this rejected(4)] show ?thesis
      using get_access_code_frame [OF rejected(1)] requests_post_frame [OF rejected(2)]
      by simp
  qed
qed

lemma refresh_access_token_cases:
  assumes "refresh_access_token s w = (r, s1, w1)"
  obtains
    (unset) "refresh_expiration (tokens s) = None" "r = Raises TypeError" "s1 = s" "w1 = w"
  | (full) x where "refresh_expiration (tokens s) = Some x" "x - timedelta_days 1 < now w"
      "get_access_token s w = (r, s1, w1)"
  | (post_fails) x e where "refresh_expiration (tokens s) = Some x"
      "\<not> x - timedelta_days 1 < now w"
      "requests_post (refresh_request s) w = (Raises e, w1)" "s1 = s" "r = Raises e"
  | (fallback) x rp wa where "refresh_expiration (tokens s) = Some x"
      "\<not> x - timedelta_days 1 < now w"
      "requests_post (refresh_request s) w = (Returns rp, wa)" "status_code rp \<noteq> 200"
      "get_access_token (s\<lparr>logged_in_state := False\<rparr>) wa = (r, s1, w1)"
  | (no_json) x rp where "refresh_expiration (tokens s) = Some x"
      "\<not> x - timedelta_days 1 < now w"
      "requests_post (refresh_request s) w = (Returns rp, w1)" "status_code rp = 200"
      "json rp = None" "r = Raises JSONDecodeError" "s1 = s"
  | (updated) x rp tr where "refresh_expiration (tokens s) = Some x"
      "\<not> x - timedelta_days 1 < now w"
      "requests_post (refresh_request s) w = (Returns rp, w1)" "status_code rp = 200"
      "json rp = Some tr" "update_access_token s tr w1 = (r, s1)"
proof (cases "refresh_expiration (tokens s)")
  case None
  with assms show ?thesis
    by (auto simp: refresh_access_token_def minus_before_def intro: unset)
next
  case (Some x)
  show ?thesis
  proof (cases "x - timedelta_days 1 < now w")
    case True
    with assms Some show ?thesis
      by (auto simp: refresh_access_token_def minus_before_def intro: full)
  next
    case False
    obtain r2 wa where post: "requests_post (refresh_request s) w = (r2, wa)"
      by (cases "requests_post (refresh_request s) w")
    show ?thesis
    proof (cases r2)
      case (Returns rp)
      show ?thesis
      proof (cases "status_code rp = 200")
        case True
        with assms Some False post Returns show ?thesis
          by (cases "json rp")
             (auto simp: refresh_access_token_def minus_before_def request_refresh_token_def
                   split: prod.splits intro: no_json updated)
      next
        case ne: False
        with assms Some False post Returns show ?thesis
          by (auto simp: refresh_access_token_def minus_before_def request_refresh_token_def
                intro: fallback)
      qed
    next
      case (Raises e)
      with assms Some False post show ?thesis
        by (auto simp: refresh_access_token_def minus_before_def request_refresh_token_def
              intro: post_fails)
    next
      case Hangs
      with post show ?thesis by (simp add: requests_post_never_hangs)
    qed
  qed
qed


lemma get_access_token_keeps:
  "get_access_token s w = (r, s1, w1) \<Longrightarrow>
     td_config s1 = td_config s \<and> store_refresh_token s1 = store_refresh_token s \<and>
     is_single_access s1 = is_single_access s"
  unfolding get_access_token_def by (rule retries_keeps)

lemma get_access_token_single:
  "is_single_access s \<Longrightarrow> get_access_token s w = (r, s1, w1) \<Longrightarrow>
     files w1 = files w \<and> refresh_token (tokens s1) = refresh_token (tokens s) \<and>
     refresh_expiration (tokens s1) = refresh_expiration (tokens s)"
  unfolding get_access_token_def by (rule retries_single)



lemma refresh_access_token_keeps:
  assumes "refresh_access_token s w = (r, s1, w1)"
  shows "td_config s1 = td_config s \<and> store_refresh_token s1 = store_refresh_token s \<and>
     is_single_access s1 = is_single_access s"
  using assms
proof (cases rule: refresh_access_token_cases)
  case (full x)
  then show ?thesis by (simp add: get_access_token_keeps)
next
  case (fallback x rp wa)
  from get_access_token_keeps [OF fallback(5)] show ?thesis by simp
next
  case (updated x rp tr)
  from update_access_token_frame [OF updated(6)] show ?thesis by simp
qed simp_all

lemma authenticate_cases:
  assumes "authenticate s w = (r, s1, w1)"
  obtains
    (unset) "access_expiration (tokens s) = None" "r = Raises TypeError" "s1 = s" "w1 = w"
  | (full) e where "is_single_access s" "access_expiration (tokens s) = Some e"
      "e - timedelta_seconds 30 < now w" "get_access_token s w = (r, s1, w1)"
  | (refresh) e where "\<not> is_single_access s" "access_expiration (tokens s) = Some e"
      "e - timedelta_seconds 5 < now w" "refresh_access_token s w = (r, s1, w1)"
  | (idle) e where "access_expiration (tokens s) = Some e"
      "\<not> e - timedelta_seconds 5 < now w" "r = Returns ()" "s1 = s" "w1 = w"
proof (cases "access_expiration (tokens s)")
  case None
  with assms show ?thesis
    by (cases "is_single_access s") (auto simp: authenticate_def minus_before_def intro: unset)
next
  case (Some e)
  have later: "e - timedelta_seconds 5 < now w \<Longrightarrow> e - timedelta_seconds 30 < now w"
    by (simp add: timedelta_seconds_def)
  from assms Some later show ?thesis
    by (cases "is_single_access s"; cases "e - timedelta_seconds 30 < now w";
        cases "e - timedelta_seconds 5 < now w")
       (auto simp: authenticate_def minus_before_def intro: full refresh idle)
qed


lemma authenticate_keeps:
  assumes "authenticate s w = (r, s1, w1)"
  shows "td_config s1 = td_config s \<and> store_refresh_token s1 = store_refresh_token s \<and>
     is_single_access s1 = is_single_access s"
  using assms
  by (cases rule: authenticate_cases)
     (simp_all add: get_access_token_keeps refresh_access_token_keeps)


lemma initialize_authentication_cases:
  assumes "initialize_authentication s w = (r, s1, w1)"
  obtains
    (discard) "\<not> store_refresh_token s \<or> is_single_access s"
      "get_access_token s (w\<lparr>files := (files w)(pickle_file s := None)\<rparr>) = (r, s1, w1)"
  | (load) rt rexp where "store_refresh_token s" "\<not> is_single_access s"
      "files w (pickle_file s) = Some (rt, rexp)"
      "refresh_access_token
         (s\<lparr>tokens := (tokens s)\<lparr>refresh_token := rt, refresh_expiration := rexp\<rparr>\<rparr>) w =
       (r, s1, w1)"
  | (first) "store_refresh_token s" "\<not> is_single_access s" "files w (pickle_file s) = None"
      "get_access_token s w = (r, s1, w1)"
proof (cases "files w (pickle_file s)")
  case None
  then have "(files w)(pickle_file s := None) = files w" by (simp add: fun_upd_idem)
  then have same: "w\<lparr>files := (files w)(pickle_file s := None)\<rparr> = w" by simp
  from assms None show ?thesis
    by (cases "\<not> store_refresh_token s \<or> is_single_access s")
       (auto simp: initialize_authentication_def same intro: discard first)
next
  case (Some p)
  with assms show ?thesis
    by (cases p; cases "\<not> store_refresh_token s \<or> is_single_access s")
       (auto simp: initialize_authentication_def intro: discard load)
qed


lemma call_after_wait:
  "run_call py_scheme py_urljoin CallAccessToken (logged_in True)
      ((after_login True)\<lparr>now := 1810000000\<rparr>) =
     (False,
      (logged_in True)\<lparr>tokens := \<lparr> access_token = Some ''A'',
         access_expiration = Some 3615000000, refresh_token = None,
         refresh_expiration = None \<rparr>\<rparr>,
      (after_login True)\<lparr>now := 1815000000, sessions := 2,
         posted := replicate 2 (code_request (new_manager example_config True True)
           (Some ''xyz''))\<rparr>)"
  by (simp add: run_call_def access_token_property_def run_defs logged_in_def after_login_def
        accepting_world_def example_config_def numeral_2_eq_2)

subsection \<open>Single-access mode, step by step\<close>

lemma code_grants_only_iff:
  "code_grants_only w w1 =
     (\<exists>ps. posted w1 = posted w @ ps \<and>
           (\<forall>rq \<in> set ps. grant_type rq = Some (Some ''authorization_code'')))"
proof
  assume a: "code_grants_only w w1"
  then have "posted w1 = posted w @ new_posts w w1"
    unfolding code_grants_only_def new_posts_def
    by (metis append_take_drop_id)
  with a show "\<exists>ps. posted w1 = posted w @ ps \<and>
      (\<forall>rq \<in> set ps. grant_type rq = Some (Some ''authorization_code''))"
    unfolding code_grants_only_def list_all_iff by blast
next
  assume "\<exists>ps. posted w1 = posted w @ ps \<and>
      (\<forall>rq \<in> set ps. grant_type rq = Some (Some ''authorization_code''))"
  then show "code_grants_only w w1"
    by (auto simp: code_grants_only_def new_posts_def list_all_iff)
qed

lemma code_grants_only_refl: "code_grants_only w w"
  by (simp add: code_grants_only_iff)

lemma code_grants_only_same: "posted w1 = posted w \<Longrightarrow> code_grants_only w w1"
  by (simp add: code_grants_only_iff)

lemma code_grants_only_trans:
  "code_grants_only w w1 \<Longrightarrow> code_grants_only w1 w2 \<Longrightarrow> code_grants_only w w2"
  unfolding code_grants_only_iff by fastforce

lemma get_access_token_code_grants:
  "get_access_token s w = (r, s1, w1) \<Longrightarrow> code_grants_only w w1"
  unfolding code_grants_only_iff get_access_token_def
  using retries_posted by blast

lemma authenticate_single:
  assumes "is_single_access s" and "authenticate s w = (r, s1, w1)"
  shows "is_single_access s1 \<and> td_config s1 = td_config s \<and> files w1 = files w \<and>
     refresh_token (tokens s1) = refresh_token (tokens s) \<and>
     refresh_expiration (tokens s1) = refresh_expiration (tokens s) \<and>
     code_grants_only w w1"
  using assms(2)
proof (cases rule: authenticate_cases)
  case (full e)
  from get_access_token_single [OF assms(1) full(4)] get_access_token_keeps [OF full(4)]
    get_access_token_code_grants [OF full(4)] assms(1)
  show ?thesis by simp
next
  case (refresh e)
  with assms(1) show ?thesis by simp
qed (simp_all add: assms(1) code_grants_only_refl)

lemma run_call_single:
  assumes "is_single_access s" and "run_call scheme_of urljoin c s w = (h, s1, w1)"
  shows "is_single_access s1 \<and> td_config s1 = td_config s \<and> files w1 = files w \<and>
     refresh_token (tokens s1) = refresh_token (tokens s) \<and>
     refresh_expiration (tokens s1) = refresh_expiration (tokens s) \<and>
     code_grants_only w w1"
proof (cases c)
  case (CallHeaders ep mode)
  obtain r sa wa where au: "authenticate s w = (r, sa, wa)" by (cases "authenticate s w")
  with assms(2) CallHeaders have "s1 = sa \<and> w1 = wa"
    by (cases r) (auto simp: run_call_def headers_def split: if_splits)
  with authenticate_single [OF assms(1) au] show ?thesis by simp
next
  case CallAccessToken
  obtain r sa wa where au: "authenticate s w = (r, sa, wa)" by (cases "authenticate s w")
  with assms(2) CallAccessToken have "s1 = sa \<and> w1 = wa"
    by (cases r) (auto simp: run_call_def access_token_property_def split: if_splits)
  with authenticate_single [OF assms(1) au] show ?thesis by simp
next
  case CallRepr
  with assms show ?thesis
    by (auto simp: run_call_def repr_def Let_def code_grants_only_refl
          split: option.splits if_splits)
next
  case (Wait d)
  with assms show ?thesis
    by (auto simp: run_call_def code_grants_only_same)
qed

lemma run_calls_single:
  "is_single_access s \<Longrightarrow> run_calls scheme_of urljoin cs s w = (s1, w1) \<Longrightarrow>
     is_single_access s1 \<and> td_config s1 = td_config s \<and> files w1 = files w \<and>
     refresh_token (tokens s1) = refresh_token (tokens s) \<and>
     refresh_expiration (tokens s1) = refresh_expiration (tokens s) \<and>
     code_grants_only w w1"
proof (induction cs arbitrary: s w)
  case Nil
  then show ?case by (simp add: code_grants_only_refl)
next
  case (Cons c cs)
  obtain h sa wa where step: "run_call scheme_of urljoin c s w = (h, sa, wa)"
    by (cases "run_call scheme_of urljoin c s w")
  note one = run_call_single [OF Cons.prems(1) step]
  show ?case
  proof (cases h)
    case True
    with Cons.prems(2) step one show ?thesis by simp
  next
    case False
    with Cons.prems(2) step have rest: "run_calls scheme_of urljoin cs sa wa = (s1, w1)"
      by simp
    from one have "is_single_access sa" by simp
    from Cons.IH [OF this rest] one show ?thesis
      by (auto intro: code_grants_only_trans)
  qed
qed

lemma init_single:
  assumes "init cfg store True w = (r, s1, w1)"
  shows "is_single_access s1 \<and> td_config s1 = cfg \<and>
     files w1 = (files w)(user cfg @ ''refreshtoken.pickle'' := None) \<and>
     refresh_token (tokens s1) = None \<and> refresh_expiration (tokens s1) = None \<and>
     code_grants_only w w1"
proof -
  let ?s = "new_manager cfg store True"
  from assms have run: "initialize_authentication ?s w = (r, s1, w1)"
    by (simp add: init_def)
  have fresh: "is_single_access ?s" "td_config ?s = cfg" "refresh_token (tokens ?s) = None"
    "refresh_expiration (tokens ?s) = None"
    "pickle_file ?s = user cfg @ ''refreshtoken.pickle''"
    by (simp_all add: new_manager_def pickle_file_def)
  from run show ?thesis
  proof (cases rule: initialize_authentication_cases)
    case discard
    let ?w = "w\<lparr>files := (files w)(pickle_file ?s := None)\<rparr>"
    from get_access_token_single [OF fresh(1) discard(2)]
      get_access_token_keeps [OF discard(2)]
      get_access_token_code_grants [OF discard(2)] fresh
    have "is_single_access s1 \<and> td_config s1 = cfg \<and>
       files w1 = (files w)(user cfg @ ''refreshtoken.pickle'' := None) \<and>
       refresh_token (tokens s1) = None \<and> refresh_expiration (tokens s1) = None \<and>
       code_grants_only ?w w1"
      by simp
    moreover have "code_grants_only w ?w" by (simp add: code_grants_only_same)
    ultimately show ?thesis by (blast intro: code_grants_only_trans)
  next
    case (load rt rexp)
    with fresh show ?thesis by simp
  next
    case first
    with fresh show ?thesis by simp
  qed
qed

lemma calls_with_a_wait:
  "run_calls py_scheme py_urljoin
      [CallHeaders ''quotes'' None, Wait 1800000000, CallAccessToken]
      (logged_in True) (after_login True) =
     ((logged_in True)\<lparr>tokens := \<lparr> access_token = Some ''A'',
         access_expiration = Some 3615000000, refresh_token = None,
         refresh_expiration = None \<rparr>\<rparr>,
      (after_login True)\<lparr>now := 1815000000, sessions := 2,
         posted := replicate 2 (code_request (new_manager example_config True True)
           (Some ''xyz''))\<rparr>)"
proof -
  have first: "run_call py_scheme py_urljoin (CallHeaders ''quotes'' None)
      (logged_in True) (after_login True) = (False, logged_in True, after_login True)"
    by (simp add: run_call_def headers_def authenticate_def minus_before_def logged_in_def
          after_login_def accepting_world_def new_manager_def timedelta_seconds_def)
  have wait: "run_call py_scheme py_urljoin (Wait 1800000000) (logged_in True)
      (after_login True) = (False, logged_in True, (after_login True)\<lparr>now := 1810000000\<rparr>)"
    by (simp add: run_call_def after_login_def)
  show ?thesis by (simp add: first wait call_after_wait)
qed

subsection \<open>The pickle file\<close>





section \<open>Properties\<close>

subsection \<open>\<open>__repr__\<close> on an object that never logged in\<close>

text \<open>
  C10. When \<open>access_expiration\<close> is unset, the string representation raises a
  \<open>TypeError\<close> (the comparison of \<open>None\<close> with the current time) and returns no flag; the
  object and the world are as before. An object built while every attempt of the full
  authentication failed is in that state.
\<close>

theorem repr_unset_expiration_raises:
  "access_expiration (tokens s) = None \<Longrightarrow> repr s w = (Raises TypeError, s, w)"
  by (simp add: repr_def)

theorem repr_unset_expiration_raises_witness:
  "access_expiration (tokens (fst (snd (init example_config True False rejecting_world))))
     = None \<and>
   repr (fst (snd (init example_config True False rejecting_world))) rejecting_world =
     (Raises TypeError, new_manager example_config True False, rejecting_world)"
proof -
  have unset: "access_expiration
      (tokens (fst (snd (init example_config True False rejecting_world)))) = None"
    by (simp add: init_rejected new_manager_def)
  show ?thesis
    using unset repr_unset_expiration_raises [OF unset, of rejecting_world]
    by (simp add: init_rejected)
qed

subsection \<open>Reading the token after a login that failed\<close>

text \<open>
  C1. The claim: the \<open>access_token\<close> property and \<open>headers\<close> never raise, also on an
  object whose first full authentication failed at every attempt. On that object (the
  endpoint answers 500 three times, the constructor returns, the flag is false and
  \<open>access_expiration\<close> is still \<open>None\<close>) both calls raise a \<open>TypeError\<close> in
  \<open>_authenticate\<close>, which subtracts a \<open>timedelta\<close> from \<open>None\<close>, before the flag is
  looked at.
\<close>

theorem access_token_after_failed_login:
  "init example_config True False rejecting_world =
     (Returns (), new_manager example_config True False,
      rejecting_world\<lparr>posted := replicate 3
        (code_request (new_manager example_config True False) None)\<rparr>) \<and>
   \<not> logged_in_state (new_manager example_config True False) \<and>
   access_token_property (new_manager example_config True False)
      (rejecting_world\<lparr>posted := replicate 3
        (code_request (new_manager example_config True False) None)\<rparr>) =
     (Raises TypeError, new_manager example_config True False,
      rejecting_world\<lparr>posted := replicate 3
        (code_request (new_manager example_config True False) None)\<rparr>) \<and>
   headers py_scheme py_urljoin (new_manager example_config True False)
      (rejecting_world\<lparr>posted := replicate 3
        (code_request (new_manager example_config True False) None)\<rparr>) ''quotes'' None =
     (Raises TypeError, new_manager example_config True False,
      rejecting_world\<lparr>posted := replicate 3
        (code_request (new_manager example_config True False) None)\<rparr>)"
  by (simp add: init_rejected access_token_property_def headers_def authenticate_def
        minus_before_def new_manager_def)

subsection \<open>\<open>_authenticate\<close>: when it renews\<close>

text \<open>
  C2. With \<open>access_expiration\<close> set: in single-access mode \<open>_authenticate\<close> is the full
  authentication exactly when the expiration minus 30 seconds is before now, and every
  request it posts is an authorization-code grant (never a refresh); in normal mode it is
  the refresh exactly when the expiration minus 5 seconds is before now; in every other
  case it returns with the object and the world unchanged.
\<close>

theorem authenticate_policy:
  "access_expiration (tokens s) = Some e \<Longrightarrow>
     authenticate s w =
       (if is_single_access s
        then (if e - timedelta_seconds 30 < now w then get_access_token s w
              else (Returns (), s, w))
        else (if e - timedelta_seconds 5 < now w then refresh_access_token s w
              else (Returns (), s, w))) \<and>
     (is_single_access s \<longrightarrow>
        (\<forall>rq \<in> set (new_posts w (snd (snd (authenticate s w)))).
           grant_type rq = Some (Some ''authorization_code'')))"
proof -
  assume e: "access_expiration (tokens s) = Some e"
  have eq: "authenticate s w =
       (if is_single_access s
        then (if e - timedelta_seconds 30 < now w then get_access_token s w
              else (Returns (), s, w))
        else (if e - timedelta_seconds 5 < now w then refresh_access_token s w
              else (Returns (), s, w)))"
    using e by (auto simp: authenticate_def minus_before_def timedelta_seconds_def)
  have "\<forall>rq \<in> set (new_posts w (snd (snd (authenticate s w)))).
           grant_type rq = Some (Some ''authorization_code'')" if single: "is_single_access s"
  proof (cases "e - timedelta_seconds 30 < now w")
    case True
    obtain r s1 w1 where run: "get_access_token s w = (r, s1, w1)"
      by (cases "get_access_token s w")
    with eq single True have "snd (snd (authenticate s w)) = w1" by simp
    with get_access_token_posts(3) [OF run] show ?thesis by simp
  next
    case False
    with eq single show ?thesis by (simp add: new_posts_self)
  qed
  with eq show ?thesis by blast
qed

theorem authenticate_policy_witness:
  "access_expiration (tokens (expiring True)) = Some 20000000 \<and>
   is_single_access (expiring True) \<and>
   authenticate (expiring True) rejecting_world = get_access_token (expiring True) rejecting_world \<and>
   map grant_type (new_posts rejecting_world
      (snd (snd (authenticate (expiring True) rejecting_world)))) =
     replicate 3 (Some (Some ''authorization_code''))"
  using authenticate_policy [of "expiring True" 20000000 rejecting_world]
  by (simp add: expiring_def run_defs new_posts_def rejecting_world_def grant_type_def
        example_config_def)

subsection \<open>\<open>_refresh_access_token\<close>: a refresh token about to end\<close>



subsection \<open>\<open>_get_access_token\<close>: three attempts\<close>

text \<open>
  C4. \<open>_get_access_token\<close> posts at most 3 authorization-code exchanges; after a reply
  other than 200 the remaining rounds run on the object with the logged-in flag cleared;
  and when all three attempts get a reply other than 200 the call returns (no exception),
  the flag is false, nothing else of the object has changed, no file has been written and
  three requests have been posted.
\<close>

theorem get_access_token_three_attempts:
  "length (new_posts w (snd (snd (get_access_token s w)))) \<le> 3 \<and>
   (\<forall>c wa rp wb n.
      get_access_code s w = (Returns c, wa) \<and>
      requests_post (code_request s c) wa = (Returns rp, wb) \<and> status_code rp \<noteq> 200 \<longrightarrow>
      get_access_token_retries (Suc n) s w =
        get_access_token_retries n (s\<lparr>logged_in_state := False\<rparr>) wb) \<and>
   ((\<forall>i<3. code_arrives w i \<and> rejects w i) \<longrightarrow>
      get_access_token s w =
        (Returns (), s\<lparr>logged_in_state := False\<rparr>, snd (snd (get_access_token s w))) \<and>
      files (snd (snd (get_access_token s w))) = files w \<and>
      length (new_posts w (snd (snd (get_access_token s w)))) = 3)"
proof (intro conjI allI impI)
  obtain r s1 w1 where run: "get_access_token s w = (r, s1, w1)"
    by (cases "get_access_token s w")
  from get_access_token_posts(2) [OF run] run
  show "length (new_posts w (snd (snd (get_access_token s w)))) \<le> 3" by simp
next
  fix c wa rp wb n
  assume "get_access_code s w = (Returns c, wa) \<and>
      requests_post (code_request s c) wa = (Returns rp, wb) \<and> status_code rp \<noteq> 200"
  then show "get_access_token_retries (Suc n) s w =
      get_access_token_retries n (s\<lparr>logged_in_state := False\<rparr>) wb"
    by simp
next
  assume all: "\<forall>i<3. code_arrives w i \<and> rejects w i"
  have "\<exists>w1. get_access_token_retries 3 s w =
            (Returns (), (if (3::nat) = 0 then s else s\<lparr>logged_in_state := False\<rparr>), w1) \<and>
          files w1 = files w \<and> length (posted w1) = length (posted w) + 3"
    by (rule retries_all_rejected) (use all in simp)
  then obtain w1 where
    run: "get_access_token s w = (Returns (), s\<lparr>logged_in_state := False\<rparr>, w1)"
    and frame: "files w1 = files w" "length (posted w1) = length (posted w) + 3"
    by (auto simp: get_access_token_def)
  from run show "get_access_token s w =
      (Returns (), s\<lparr>logged_in_state := False\<rparr>, snd (snd (get_access_token s w)))"
    by simp
  from run frame show "files (snd (snd (get_access_token s w))) = files w" by simp
  from run frame show "length (new_posts w (snd (snd (get_access_token s w)))) = 3"
    by (simp add: new_posts_def)
qed

theorem get_access_token_three_attempts_witness:
  "code_arrives rejecting_world 0 \<and> rejects rejecting_world 0 \<and>
   code_arrives rejecting_world 1 \<and> rejects rejecting_world 1 \<and>
   code_arrives rejecting_world 2 \<and> rejects rejecting_world 2 \<and>
   logged_in_state (holding 0) \<and>
   fst (get_access_token (holding 0) rejecting_world) = Returns () \<and>
   \<not> logged_in_state (fst (snd (get_access_token (holding 0) rejecting_world))) \<and>
   tokens (fst (snd (get_access_token (holding 0) rejecting_world))) = tokens (holding 0) \<and>
   files (snd (snd (get_access_token (holding 0) rejecting_world))) = Map.empty \<and>
   length (new_posts rejecting_world
     (snd (snd (get_access_token (holding 0) rejecting_world)))) = 3"
proof -
  have hyp: "\<forall>i<3. code_arrives rejecting_world i \<and> rejects rejecting_world i"
    by (simp add: code_arrives_def rejects_def rejecting_world_def)
  have shape: "get_access_token (holding 0) rejecting_world =
        (Returns (), (holding 0)\<lparr>logged_in_state := False\<rparr>,
         snd (snd (get_access_token (holding 0) rejecting_world))) \<and>
      files (snd (snd (get_access_token (holding 0) rejecting_world))) =
        files rejecting_world \<and>
      length (new_posts rejecting_world
        (snd (snd (get_access_token (holding 0) rejecting_world)))) = 3"
    using get_access_token_three_attempts [of rejecting_world "holding 0"] hyp by blast
  have start: "logged_in_state (holding 0)" by (simp add: holding_def)
  have env: "files rejecting_world = Map.empty" by (simp add: rejecting_world_def)
  from shape have a: "fst (get_access_token (holding 0) rejecting_world) = Returns ()"
    and b: "fst (snd (get_access_token (holding 0) rejecting_world)) =
        (holding 0)\<lparr>logged_in_state := False\<rparr>"
    by (metis fst_conv, metis fst_conv snd_conv)
  show ?thesis using hyp shape start env a b by simp
qed

subsection \<open>\<open>_refresh_access_token\<close>: what a successful refresh touches\<close>

text \<open>
  C6. When the refresh token is not within a day of its end and the endpoint answers the
  refresh grant with 200, \<open>refresh_access_token\<close> posts that one request and leaves
  \<open>refresh_token\<close>, \<open>refresh_expiration\<close>, the configuration, the two mode flags and the
  files as they were; with an \<open>access_token\<close> in the body it returns, and the object
  differs from the old one in \<open>access_token\<close>, \<open>access_expiration\<close> and the logged-in
  flag only.
\<close>

theorem refresh_success_updates_access_only:
  "refresh_expiration (tokens s) = Some x \<Longrightarrow> \<not> x - timedelta_days 1 < now w \<Longrightarrow>
   endpoint w (length (posted w)) = Reply rp d \<Longrightarrow> status_code rp = 200 \<Longrightarrow>
   refresh_access_token s w = (r, s1, w1) \<Longrightarrow>
     refresh_token (tokens s1) = refresh_token (tokens s) \<and>
     refresh_expiration (tokens s1) = refresh_expiration (tokens s) \<and>
     td_config s1 = td_config s \<and>
     store_refresh_token s1 = store_refresh_token s \<and>
     is_single_access s1 = is_single_access s \<and>
     files w1 = files w \<and>
     new_posts w w1 = [refresh_request s] \<and>
     (\<forall>tr a. json rp = Some tr \<and> map_of tr ''access_token'' = Some a \<longrightarrow>
        r = Returns () \<and>
        s1 = s\<lparr>tokens := (tokens s)
                 \<lparr>access_token := Some a,
                  access_expiration := Some (now w1 + timedelta_seconds 1800)\<rparr>,
               logged_in_state := True\<rparr>)"
  by (auto simp: refresh_access_token_def minus_before_def request_refresh_token_def
        requests_post_def update_access_token_def new_posts_def ACCESS_DURATION_def
      split: option.splits)

theorem refresh_success_updates_access_only_witness:
  "refresh_expiration (tokens (holding 7776000000000)) = Some 7776000000000 \<and>
   \<not> 7776000000000 - timedelta_days 1 < now accepting_world \<and>
   status_code \<lparr> status_code = 200,
      json = Some [(''access_token'', ''A''), (''refresh_token'', ''R'')] \<rparr> = 200 \<and>
   refresh_access_token (holding 7776000000000) accepting_world =
     (Returns (),
      (holding 7776000000000)
        \<lparr>tokens := \<lparr> access_token = Some ''A'', access_expiration = Some 1806000000,
                     refresh_token = Some ''R0'',
                     refresh_expiration = Some 7776000000000 \<rparr>\<rparr>,
      accepting_world\<lparr>posted := [refresh_request (holding 7776000000000)],
                      now := 6000000\<rparr>)"
proof -
  have run: "refresh_access_token (holding 7776000000000) accepting_world =
     (Returns (),
      (holding 7776000000000)
        \<lparr>tokens := \<lparr> access_token = Some ''A'', access_expiration = Some 1806000000,
                     refresh_token = Some ''R0'',
                     refresh_expiration = Some 7776000000000 \<rparr>\<rparr>,
      accepting_world\<lparr>posted := [refresh_request (holding 7776000000000)],
                      now := 6000000\<rparr>)"
    by (simp add: holding_def run_defs accepting_world_def example_config_def)
  have a: "refresh_expiration (tokens (holding 7776000000000)) = Some 7776000000000"
    by (simp add: holding_def)
  have b: "\<not> 7776000000000 - timedelta_days 1 < now accepting_world"
    by (simp add: timedelta_days_def accepting_world_def)
  have c: "endpoint accepting_world (length (posted accepting_world)) =
      Reply \<lparr> status_code = 200,
        json = Some [(''access_token'', ''A''), (''refresh_token'', ''R'')] \<rparr> 1000000"
    by (simp add: accepting_world_def)
  from refresh_success_updates_access_only [OF a b c _ run] a b run
  show ?thesis by simp
qed

subsection \<open>\<open>headers\<close> on a logged-in object\<close>




subsection \<open>The expirations\<close>



subsection \<open>Single-access mode\<close>

text \<open>
  C9. For an object built in single-access mode and any sequence of calls of the public
  interface, with any waits between them: \<open>refresh_token\<close> and \<open>refresh_expiration\<close>
  are unset after every call, the files are those from before the construction with the
  user's pickle file removed (it is never written), every request that went to the
  endpoint is an authorization-code grant (no refresh exchange), and when the access
  token is within 30 seconds of its end \<open>_authenticate\<close> is the full authentication.
\<close>

theorem single_access_never_stores_refresh_token:
  "init cfg store True w = (r, s0, w0) \<Longrightarrow>
   run_calls scheme_of urljoin cs s0 w0 = (s1, w1) \<Longrightarrow>
     is_single_access s1 \<and>
     refresh_token (tokens s1) = None \<and> refresh_expiration (tokens s1) = None \<and>
     files w1 = (files w)(user cfg @ ''refreshtoken.pickle'' := None) \<and>
     code_grants_only w w1 \<and>
     (\<forall>e. access_expiration (tokens s1) = Some e \<and> e - timedelta_seconds 30 < now w1 \<longrightarrow>
        authenticate s1 w1 = get_access_token s1 w1)"
proof -
  assume a: "init cfg store True w = (r, s0, w0)"
    and b: "run_calls scheme_of urljoin cs s0 w0 = (s1, w1)"
  note i = init_single [OF a]
  from i have "is_single_access s0" by simp
  note c = run_calls_single [OF this b]
  have "code_grants_only w w1" using i c by (blast intro: code_grants_only_trans)
  moreover have "\<forall>e. access_expiration (tokens s1) = Some e \<and>
      e - timedelta_seconds 30 < now w1 \<longrightarrow> authenticate s1 w1 = get_access_token s1 w1"
    using c by (simp add: authenticate_def minus_before_def)
  ultimately show ?thesis using i c by simp
qed

theorem single_access_never_stores_refresh_token_witness:
  "init example_config True True accepting_world =
     (Returns (), logged_in True, after_login True) \<and>
   refresh_token (tokens (fst (run_calls py_scheme py_urljoin
      [CallHeaders ''quotes'' None, Wait 1800000000, CallAccessToken]
      (logged_in True) (after_login True)))) = None \<and>
   refresh_expiration (tokens (fst (run_calls py_scheme py_urljoin
      [CallHeaders ''quotes'' None, Wait 1800000000, CallAccessToken]
      (logged_in True) (after_login True)))) = None \<and>
   files (snd (run_calls py_scheme py_urljoin
      [CallHeaders ''quotes'' None, Wait 1800000000, CallAccessToken]
      (logged_in True) (after_login True))) = Map.empty \<and>
   map grant_type (posted (snd (run_calls py_scheme py_urljoin
      [CallHeaders ''quotes'' None, Wait 1800000000, CallAccessToken]
      (logged_in True) (after_login True)))) =
     [Some (Some ''authorization_code''), Some (Some ''authorization_code'')]"
proof -
  note run = calls_with_a_wait
  from single_access_never_stores_refresh_token
    [OF init_accepted [of True] run]
  have a: "refresh_token (tokens ((logged_in True)\<lparr>tokens := \<lparr> access_token = Some ''A'',
         access_expiration = Some 3615000000, refresh_token = None,
         refresh_expiration = None \<rparr>\<rparr>)) = None"
    by blast
  have b: "files ((after_login True)\<lparr>now := 1815000000, sessions := 2,
         posted := replicate 2 (code_request (new_manager example_config True True)
           (Some ''xyz''))\<rparr>) = Map.empty"
    by (simp add: after_login_def)
  have c: "map grant_type (posted ((after_login True)\<lparr>now := 1815000000, sessions := 2,
         posted := replicate 2 (code_request (new_manager example_config True True)
           (Some ''xyz''))\<rparr>)) =
     [Some (Some ''authorization_code''), Some (Some ''authorization_code'')]"
    by (simp add: grant_type_def code_request_def numeral_2_eq_2)
  show ?thesis
    unfolding run using a b c init_accepted [of True] by simp
qed

subsection \<open>The persisted pair, written and read back\<close>



end
